theory Spec2Isabelle
  imports Main
begin

section \<open>Strings\<close>

text \<open>
  A Python \<open>str\<close> is modelled as a \<open>string\<close> holding its UTF-8 encoding: an ASCII
  character is one \<open>char\<close>, any other code point is a run of \<open>char\<close>s from \<open>0x80\<close> up.
  All the separators the program looks for (slash, backslash, \<open>?\<close>, \<open>#\<close>, \<open>:\<close>,
  \<open>%\<close>, \<open>|\<close>, \<open>.\<close>, brackets and braces) are ASCII, so searching, splitting and
  replacing them on the encoding is searching, splitting and replacing them on the
  code points. The contents of a file are \<open>bytes\<close>.
\<close>

type_synonym bytes = string

text \<open>\<open>s.split(d)\<close> for a one-character separator: never empty, one more piece than
  there are separators.\<close>

fun split_on :: "char \<Rightarrow> string \<Rightarrow> string list" where
  "split_on d [] = [[]]"
| "split_on d (c # cs) =
     (if c = d then [] # split_on d cs
      else (case split_on d cs of
              [] \<Rightarrow> [[c]]
            | p # ps \<Rightarrow> (c # p) # ps))"

text \<open>\<open>sep.join(parts)\<close>.\<close>

fun join_with :: "string \<Rightarrow> string list \<Rightarrow> string" where
  "join_with sep [] = []"
| "join_with sep [p] = p"
| "join_with sep (p # q # ps) = p @ sep @ join_with sep (q # ps)"

text \<open>\<open>s.replace(a, b)\<close> for one-character \<open>a\<close> and \<open>b\<close>.\<close>

definition replace_char :: "char \<Rightarrow> char \<Rightarrow> string \<Rightarrow> string" where
  "replace_char a b s = map (\<lambda>c. if c = a then b else c) s"

text \<open>The two halves of \<open>s.split(d, 1)\<close> when \<open>d\<close> occurs in \<open>s\<close>; without \<open>d\<close> the
  first half is all of \<open>s\<close>, which is \<open>s.split(d, 1)[0]\<close>.\<close>

definition before_first :: "char \<Rightarrow> string \<Rightarrow> string" where
  "before_first d s = takeWhile (\<lambda>c. c \<noteq> d) s"

definition after_first :: "char \<Rightarrow> string \<Rightarrow> string" where
  "after_first d s = drop 1 (dropWhile (\<lambda>c. c \<noteq> d) s)"

text \<open>\<open>s.rsplit(d, 1)[0]\<close> when \<open>d\<close> occurs in \<open>s\<close>: what stands before the last \<open>d\<close>.\<close>

definition before_last :: "char \<Rightarrow> string \<Rightarrow> string" where
  "before_last d s = rev (after_first d (rev s))"

text \<open>\<open>s.split(d)[-1]\<close>: what stands after the last \<open>d\<close>, all of \<open>s\<close> without one.\<close>

definition after_last :: "char \<Rightarrow> string \<Rightarrow> string" where
  "after_last d s = rev (before_first d (rev s))"

definition startswith :: "string \<Rightarrow> string \<Rightarrow> bool" where
  "startswith s p = (take (length p) s = p)"

definition endswith :: "string \<Rightarrow> string \<Rightarrow> bool" where
  "endswith s p = (length p \<le> length s \<and> drop (length s - length p) s = p)"

text \<open>
  \<open>s.lower()\<close> is only ever compared with ASCII literals that hold none of the letters
  a non-ASCII code point lowers to (\<open>k\<close> from the Kelvin sign, \<open>i\<close> followed by a
  combining dot from the dotted capital I), so lowering the ASCII letters decides every
  such comparison.
\<close>

definition ascii_lower_char :: "char \<Rightarrow> char" where
  "ascii_lower_char c =
     (let n = (of_char c :: nat) in if 65 \<le> n \<and> n \<le> 90 then char_of (n + 32) else c)"

definition ascii_lower :: "string \<Rightarrow> string" where
  "ascii_lower s = map ascii_lower_char s"

subsection \<open>White space\<close>

text \<open>
  \<open>str.strip()\<close> and the pattern \<open>\s\<close> use the same test, \<open>str.isspace\<close> on one code
  point: U+0009 to U+000D, U+001C to U+0020, U+0085, U+00A0, U+1680, U+2000 to U+200A,
  U+2028, U+2029, U+202F, U+205F and U+3000, here in their UTF-8 encodings of one, two
  and three bytes.
\<close>

definition ws1 :: "char \<Rightarrow> bool" where
  "ws1 a = (let n = (of_char a :: nat) in (9 \<le> n \<and> n \<le> 13) \<or> (28 \<le> n \<and> n \<le> 32))"

definition ws2 :: "char \<Rightarrow> char \<Rightarrow> bool" where
  "ws2 a b = (a = CHR 0xC2 \<and> (b = CHR 0x85 \<or> b = CHR 0xA0))"

definition ws3 :: "char \<Rightarrow> char \<Rightarrow> char \<Rightarrow> bool" where
  "ws3 a b c =
     ((a = CHR 0xE1 \<and> b = CHR 0x9A \<and> c = CHR 0x80)
      \<or> (a = CHR 0xE2 \<and> b = CHR 0x80
          \<and> ((128 \<le> (of_char c :: nat) \<and> (of_char c :: nat) \<le> 138)
              \<or> c = CHR 0xA8 \<or> c = CHR 0xA9 \<or> c = CHR 0xAF))
      \<or> (a = CHR 0xE2 \<and> b = CHR 0x81 \<and> c = CHR 0x9F)
      \<or> (a = CHR 0xE3 \<and> b = CHR 0x80 \<and> c = CHR 0x80))"

text \<open>A string cut into white-space code points (marked \<open>True\<close>) and the bytes between
  them, one by one.\<close>

fun ws_tokens :: "string \<Rightarrow> (bool \<times> string) list" where
  "ws_tokens [] = []"
| "ws_tokens [a] = [(ws1 a, [a])]"
| "ws_tokens [a, b] =
     (if ws1 a then (True, [a]) # ws_tokens [b]
      else if ws2 a b then [(True, [a, b])]
      else (False, [a]) # ws_tokens [b])"
| "ws_tokens (a # b # c # r) =
     (if ws1 a then (True, [a]) # ws_tokens (b # c # r)
      else if ws2 a b then (True, [a, b]) # ws_tokens (c # r)
      else if ws3 a b c then (True, [a, b, c]) # ws_tokens r
      else (False, [a]) # ws_tokens (b # c # r))"

text \<open>\<open>s.strip()\<close>.\<close>

definition py_strip :: "string \<Rightarrow> string" where
  "py_strip s = concat (map snd (rev (dropWhile fst (rev (dropWhile fst (ws_tokens s))))))"

text \<open>\<open>re.sub(r"\s+", " ", s)\<close>: every maximal run of white space becomes one space.\<close>

fun collapse_runs :: "(bool \<times> string) list \<Rightarrow> string" where
  "collapse_runs [] = []"
| "collapse_runs [(w, t)] = (if w then '' '' else t)"
| "collapse_runs ((w, t) # (w', t') # ts) =
     (if w then (if w' then collapse_runs ((w', t') # ts)
                 else '' '' @ collapse_runs ((w', t') # ts))
      else t @ collapse_runs ((w', t') # ts))"

definition collapse_ws :: "string \<Rightarrow> string" where
  "collapse_ws s = collapse_runs (ws_tokens s)"

subsection \<open>Percent-decoding: \<open>urllib.parse.unquote\<close>\<close>

text \<open>
  \<open>unquote(s)\<close> returns \<open>s\<close> itself when it holds no \<open>%\<close>. Otherwise it cuts \<open>s\<close> into
  maximal runs of ASCII and of other characters, keeps the non-ASCII runs, and replaces
  each ASCII run by \<open>unquote_to_bytes(run).decode("utf-8", "replace")\<close>.
  \<open>unquote_to_bytes\<close> splits at \<open>%\<close>; a piece that starts with two hexadecimal digits
  gives the byte they denote and the rest of the piece, any other piece is kept behind
  a literal \<open>%\<close>. The decoder of the byte string, a library function that never raises
  with \<open>errors="replace"\<close>, is the parameter \<open>dec\<close>: on well-formed UTF-8 it is the
  identity of the encoding.
\<close>

definition is_hexdig :: "char \<Rightarrow> bool" where
  "is_hexdig c = (c \<in> set ''0123456789ABCDEFabcdef'')"

definition hexval :: "char \<Rightarrow> nat" where
  "hexval c =
     (let n = (of_char c :: nat)
      in if n \<le> 57 then n - 48 else if n \<le> 70 then n - 55 else n - 87)"

fun unquote_item :: "string \<Rightarrow> bytes" where
  "unquote_item (a # b # r) =
     (if is_hexdig a \<and> is_hexdig b then char_of (16 * hexval a + hexval b) # r
      else CHR ''%'' # a # b # r)"
| "unquote_item r = CHR ''%'' # r"

definition unquote_to_bytes :: "string \<Rightarrow> bytes" where
  "unquote_to_bytes s =
     (case split_on CHR ''%'' s of
        [] \<Rightarrow> []
      | b # bs \<Rightarrow> b @ concat (map unquote_item bs))"

definition is_ascii :: "char \<Rightarrow> bool" where
  "is_ascii c = ((of_char c :: nat) < 128)"

fun ascii_runs :: "string \<Rightarrow> (bool \<times> string) list" where
  "ascii_runs [] = []"
| "ascii_runs (c # cs) =
     (case ascii_runs cs of
        [] \<Rightarrow> [(is_ascii c, [c])]
      | (a, r) # rs \<Rightarrow>
          if a = is_ascii c then (a, c # r) # rs else (is_ascii c, [c]) # (a, r) # rs)"

definition unquote :: "(bytes \<Rightarrow> string) \<Rightarrow> string \<Rightarrow> string" where
  "unquote dec s =
     (if CHR ''%'' \<notin> set s then s
      else concat (map (\<lambda>(a, r). if a then dec (unquote_to_bytes r) else r) (ascii_runs s)))"

section \<open>Path normalization utilities\<close>

definition to_posix :: "string \<Rightarrow> string" where
  "to_posix p = replace_char (CHR 0x5C) CHR ''/'' p"

definition decode_path_segments :: "(bytes \<Rightarrow> string) \<Rightarrow> string \<Rightarrow> string" where
  "decode_path_segments dec path_like =
     (let parts = split_on CHR ''/'' (to_posix path_like);
          decoded = map (unquote dec) (filter (\<lambda>part. part \<noteq> []) parts)
      in join_with ''/'' decoded)"

definition strip_query :: "string \<Rightarrow> string" where
  "strip_query s =
     (if CHR ''?'' \<notin> set s then s
      else if CHR ''#'' \<in> set s then
        (let before_hash = before_first CHR ''#'' s;
             after_hash = after_first CHR ''#'' s;
             before_q = before_first CHR ''?'' before_hash
         in before_q @ ''#'' @ after_hash)
      else before_first CHR ''?'' s)"

subsection \<open>Errors\<close>

text \<open>
  The exceptions the program can end with. \<open>Unmodelled\<close> marks a destination that
  leaves the output tree (an absolute path, a \<open>..\<close> segment, or the root itself): what
  the program does there depends on the file system around the output tree, which the
  model does not hold.
\<close>

datatype error =
    ValueError
  | RuntimeError
  | FileNotFoundError
  | OSError string
  | FileExistsError "string list"
  | NotADirectoryError "string list"
  | IsADirectoryError "string list"
  | Unmodelled string

definition and_then :: "error + 'a \<Rightarrow> ('a \<Rightarrow> error + 'b) \<Rightarrow> error + 'b" where
  "and_then r f = (case r of Inl e \<Rightarrow> Inl e | Inr x \<Rightarrow> f x)"

subsection \<open>\<open>posixpath\<close>\<close>

text \<open>One step of \<open>posixpath.join(a, *p)\<close>, and the whole of it.\<close>

definition posix_join2 :: "string \<Rightarrow> string \<Rightarrow> string" where
  "posix_join2 path b =
     (if startswith b ''/'' then b
      else if path = [] \<or> endswith path ''/'' then path @ b
      else path @ ''/'' @ b)"

definition posix_join :: "string \<Rightarrow> string list \<Rightarrow> string" where
  "posix_join a p = foldl posix_join2 a p"

text \<open>\<open>posixpath.normpath\<close>: the body of its loop over the components, the number of
  slashes it keeps in front, and the function.\<close>

definition norm_step :: "nat \<Rightarrow> string list \<Rightarrow> string \<Rightarrow> string list" where
  "norm_step initial_slashes new_comps cmp =
     (if cmp = [] \<or> cmp = ''.'' then new_comps
      else if cmp \<noteq> ''..'' \<or> (initial_slashes = 0 \<and> new_comps = [])
              \<or> (new_comps \<noteq> [] \<and> last new_comps = ''..'')
        then new_comps @ [cmp]
      else if new_comps \<noteq> [] then butlast new_comps
      else new_comps)"

definition initial_slashes :: "string \<Rightarrow> nat" where
  "initial_slashes path =
     (if startswith path ''/'' then
        (if startswith path ''//'' \<and> \<not> startswith path ''///'' then 2 else 1)
      else 0)"

definition normpath :: "string \<Rightarrow> string" where
  "normpath path =
     (if path = [] then ''.''
      else
        (let comps = foldl (norm_step (initial_slashes path)) [] (split_on CHR ''/'' path);
             joined = replicate (initial_slashes path) CHR ''/'' @ join_with ''/'' comps
         in if joined = [] then ''.'' else joined))"

text \<open>
  \<open>posixpath.abspath\<close>. \<open>cwd\<close> is the working directory of the process: \<open>Some d\<close>
  when \<open>os.getcwd()\<close> returns \<open>d\<close>, \<open>None\<close> when the directory has been removed, in
  which case \<open>os.getcwd()\<close> raises \<open>FileNotFoundError\<close>. It is asked for only when the
  path is not absolute.
\<close>

definition abspath :: "string option \<Rightarrow> string \<Rightarrow> error + string" where
  "abspath cwd path =
     (if startswith path ''/'' then Inr (normpath path)
      else (case cwd of
              None \<Rightarrow> Inl FileNotFoundError
            | Some d \<Rightarrow> Inr (normpath (posix_join2 d path))))"

fun common_prefix :: "string list \<Rightarrow> string list \<Rightarrow> string list" where
  "common_prefix (x # xs) (y # ys) = (if x = y then x # common_prefix xs ys else [])"
| "common_prefix _ _ = []"

text \<open>\<open>posixpath.relpath(path, start)\<close>, which raises \<open>ValueError\<close> on an empty
  \<open>path\<close>, and makes \<open>start\<close> absolute before \<open>path\<close>.\<close>

definition relpath :: "string option \<Rightarrow> string \<Rightarrow> string \<Rightarrow> error + string" where
  "relpath cwd path start =
     (if path = [] then Inl ValueError
      else
        and_then (abspath cwd start)
          (\<lambda>abs_start.
             and_then (abspath cwd path)
               (\<lambda>abs_path.
                  let start_list = filter (\<lambda>x. x \<noteq> []) (split_on CHR ''/'' abs_start);
                      path_list = filter (\<lambda>x. x \<noteq> []) (split_on CHR ''/'' abs_path);
                      i = length (common_prefix start_list path_list);
                      rel_list = replicate (length start_list - i) ''..'' @ drop i path_list
                  in case rel_list of
                       [] \<Rightarrow> Inr ''.''
                     | r # rs \<Rightarrow> Inr (posix_join r rs))))"

definition dirname :: "string \<Rightarrow> string" where
  "dirname p =
     (let head = rev (dropWhile (\<lambda>c. c \<noteq> CHR ''/'') (rev p))
      in if head \<noteq> [] \<and> head \<noteq> replicate (length head) CHR ''/''
         then rev (dropWhile (\<lambda>c. c = CHR ''/'') (rev head))
         else head)"

definition basename :: "string \<Rightarrow> string" where
  "basename p = rev (takeWhile (\<lambda>c. c \<noteq> CHR ''/'') (rev p))"

definition relposix :: "string option \<Rightarrow> string \<Rightarrow> string \<Rightarrow> error + string" where
  "relposix cwd from_dir to_path =
     and_then (relpath cwd to_path (if from_dir \<noteq> [] then from_dir else ''.''))
       (\<lambda>rel. Inr (replace_char (CHR 0x5C) CHR ''/'' rel))"

subsection \<open>\<open>pathlib\<close>, POSIX flavour\<close>

text \<open>
  A relative \<open>Path\<close> is the list of its segments: \<open>Path(s)\<close> drops empty segments and
  \<open>.\<close> segments, and \<open>str\<close> joins the segments with a slash. \<open>name\<close> is the last
  segment (empty without one); \<open>suffix\<close> and \<open>stem\<close> cut the name at its last dot
  when that dot is neither its first nor its last character (Python 3.9 to 3.13).
\<close>

definition path_parts :: "string \<Rightarrow> string list" where
  "path_parts s = filter (\<lambda>c. c \<noteq> [] \<and> c \<noteq> ''.'') (split_on CHR ''/'' s)"

definition path_name :: "string \<Rightarrow> string" where
  "path_name s = (case path_parts s of [] \<Rightarrow> [] | p # ps \<Rightarrow> last (p # ps))"

definition has_suffix :: "string \<Rightarrow> bool" where
  "has_suffix name =
     (CHR ''.'' \<in> set name \<and> before_last CHR ''.'' name \<noteq> []
      \<and> after_last CHR ''.'' name \<noteq> [])"

definition name_suffix :: "string \<Rightarrow> string" where
  "name_suffix name = (if has_suffix name then CHR ''.'' # after_last CHR ''.'' name else [])"

definition name_stem :: "string \<Rightarrow> string" where
  "name_stem name = (if has_suffix name then before_last CHR ''.'' name else name)"

definition path_suffix :: "string \<Rightarrow> string" where
  "path_suffix s = name_suffix (path_name s)"

text \<open>\<open>Path(s).with_suffix(suffix)\<close> for the suffixes \<open>""\<close> and \<open>".md"\<close>, as a
  string again; it raises \<open>ValueError\<close> on a path without a name.\<close>

definition with_suffix :: "string \<Rightarrow> string \<Rightarrow> error + string" where
  "with_suffix s suffix =
     (case rev (path_parts s) of
        [] \<Rightarrow> Inl ValueError
      | name # up \<Rightarrow>
          Inr ((if startswith s ''/'' then ''/'' else [])
               @ join_with ''/'' (rev up @ [name_stem name @ suffix])))"

section \<open>Page index\<close>

text \<open>A dictionary from strings to strings: the page index and the media index.\<close>

type_synonym index = "string \<rightharpoonup> string"

text \<open>
  The pages are what \<open>pages_root.rglob("*.txt")\<close> yields, in its order: the path of
  each page relative to \<open>pages_root\<close> as \<open>str\<close> prints it, and the bytes of the file,
  \<open>None\<close> when the file cannot be read.
\<close>

type_synonym page = "string \<times> bytes option"

fun build_page_index_loop :: "page list \<Rightarrow> index \<Rightarrow> error + index" where
  "build_page_index_loop [] idx = Inr idx"
| "build_page_index_loop ((rel, content) # rest) idx =
     and_then (with_suffix rel [])
       (\<lambda>rel_noext.
          let rel_posix = to_posix rel_noext;
              dokuwiki_id = replace_char CHR ''/'' CHR '':'' rel_posix;
              out_md_rel = rel_posix @ ''.md''
          in build_page_index_loop rest
               (idx(dokuwiki_id \<mapsto> out_md_rel, '':'' @ dokuwiki_id \<mapsto> out_md_rel)))"

definition build_page_index :: "page list \<Rightarrow> error + index" where
  "build_page_index pages = build_page_index_loop pages Map.empty"

definition current_page_id_from_rel :: "string \<Rightarrow> string" where
  "current_page_id_from_rel rel_md_posix =
     (let rel_noext =
            (if endswith (ascii_lower rel_md_posix) ''.md''
             then take (length rel_md_posix - 3) rel_md_posix
             else rel_md_posix)
      in replace_char CHR ''/'' CHR '':'' rel_noext)"

section \<open>Reference resolver\<close>

text \<open>\<open>t, anchor = t.split("#", 1); anchor = "#" + anchor\<close> when \<open>t\<close> holds a \<open>#\<close>,
  and \<open>t\<close> with an empty anchor otherwise.\<close>

definition split_anchor :: "string \<Rightarrow> string \<times> string" where
  "split_anchor t =
     (if CHR ''#'' \<in> set t
      then (before_first CHR ''#'' t, CHR ''#'' # after_first CHR ''#'' t)
      else (t, []))"

text \<open>\<open>m.get(a) or m.get(b)\<close>: the first value unless it is missing or empty.\<close>

definition get_or :: "index \<Rightarrow> string \<Rightarrow> string \<Rightarrow> string option" where
  "get_or m a b =
     (case m a of
        None \<Rightarrow> m b
      | Some v \<Rightarrow> if v \<noteq> [] then Some v else m b)"

text \<open>The identifier a page-link target stands for, after the anchor is split off:
  lines 248 to 262 of \<open>resolve_page_target\<close>.\<close>

definition resolved_id :: "string \<Rightarrow> string \<Rightarrow> string" where
  "resolved_id t current_id =
     (let is_absolute = startswith t '':'';
          t2 = (if is_absolute then drop 1 t else t);
          rid =
            (if CHR '':'' \<in> set t2 \<or> is_absolute then t2
             else
               (let ns = (if CHR '':'' \<in> set current_id
                          then before_last CHR '':'' current_id else [])
                in if ns \<noteq> [] then ns @ '':'' @ t2 else t2))
      in py_strip (collapse_ws rid))"

definition resolve_page_target ::
  "(bytes \<Rightarrow> string) \<Rightarrow> string \<Rightarrow> string \<Rightarrow> index \<Rightarrow> string" where
  "resolve_page_target dec raw_target current_id page_index =
     (let (t, anchor) = split_anchor (strip_query (unquote dec (py_strip raw_target)))
      in if t = [] then []
         else
           (let rid = resolved_id t current_id;
                out_md =
                  (case get_or page_index rid ('':'' @ rid) of
                     None \<Rightarrow> replace_char CHR '':'' CHR ''/'' rid @ ''.md''
                   | Some v \<Rightarrow> v)
            in replace_char (CHR 0x5C) CHR ''/'' out_md @ anchor))"

definition normalize_media_target :: "(bytes \<Rightarrow> string) \<Rightarrow> string \<Rightarrow> string" where
  "normalize_media_target dec raw_target =
     (let (t, anchor) = split_anchor (strip_query (unquote dec (py_strip raw_target)));
          t1 = (if startswith t '':'' then drop 1 t else t);
          t2 = replace_char CHR '':'' CHR ''/'' (to_posix t1);
          t3 = strip_query (decode_path_segments dec t2)
      in t3 @ anchor)"

text \<open>\<open>re.match(r"^(https?|ftp)://", s, flags=re.IGNORECASE)\<close>. Ignoring case, the
  letter \<open>s\<close> also matches the long s, U+017F; the other letters of the pattern match
  their two ASCII cases only.\<close>

definition is_external :: "string \<Rightarrow> bool" where
  "is_external s =
     (let l = ascii_lower s
      in startswith l ''http://'' \<or> startswith l ''https://'' \<or> startswith l ''ftp://''
         \<or> (startswith l ''http'' \<and> startswith (drop 4 s) [CHR 0xC5, CHR 0xBF]
             \<and> startswith (drop 6 s) ''://''))"

definition IMAGE_EXTS :: "string list" where
  "IMAGE_EXTS = [''.png'', ''.jpg'', ''.jpeg'', ''.gif'', ''.bmp'', ''.webp'', ''.svg'']"

definition colon_prefixed :: "string \<Rightarrow> string" where
  "colon_prefixed c = (if startswith c '':'' then c else '':'' @ c)"

text \<open>The first key of a list that the index holds, with its value.\<close>

fun first_hit :: "index \<Rightarrow> string list \<Rightarrow> string option" where
  "first_hit m [] = None"
| "first_hit m (k # ks) = (case m k of None \<Rightarrow> first_hit m ks | Some v \<Rightarrow> Some v)"

definition media_candidates :: "(bytes \<Rightarrow> string) \<Rightarrow> string \<Rightarrow> string list" where
  "media_candidates dec normalized_key =
     (let nmt = normalize_media_target dec normalized_key;
          candidates = [normalized_key, colon_prefixed normalized_key, nmt, colon_prefixed nmt]
      in candidates
         @ concat (map (\<lambda>c0. let c1 = replace_char CHR ''/'' CHR '':'' c0;
                                  c2 = replace_char CHR '':'' CHR ''/'' c0
                              in [c1, colon_prefixed c1, c2, colon_prefixed c2]) candidates))"

text \<open>The path from the directory of the current note to a file of the media tree.\<close>

definition media_rel :: "string option \<Rightarrow> string \<Rightarrow> string \<Rightarrow> error + string" where
  "media_rel cwd current_dir out_media_rel =
     relposix cwd current_dir (normpath (posix_join ''..'' [''media'', out_media_rel]))"

definition repl_media ::
  "(bytes \<Rightarrow> string) \<Rightarrow> string option \<Rightarrow> string \<Rightarrow> index \<Rightarrow> string \<Rightarrow> error + string"
  where
  "repl_media dec cwd current_dir media_index group1 =
     (let inner = py_strip group1;
          left = py_strip (before_first CHR ''|'' inner)
      in if left = [] then Inr []
         else if is_external left then Inr left
         else
           (let normalized_key = py_strip (strip_query (unquote dec (py_strip left)));
                out_media_rel =
                  (case first_hit media_index
                          (map strip_query (media_candidates dec normalized_key)) of
                     None \<Rightarrow> before_first CHR ''#'' (normalize_media_target dec left)
                   | Some v \<Rightarrow> v);
                ext = ascii_lower (path_suffix out_media_rel);
                fname = basename out_media_rel
            in and_then (media_rel cwd current_dir out_media_rel)
                 (\<lambda>rel. if ext \<in> set IMAGE_EXTS then Inr (''![]('' @ rel @ '')'')
                        else Inr (''['' @ fname @ '']('' @ rel @ '')''))))"

definition link_media_keys :: "string \<Rightarrow> string \<Rightarrow> string list" where
  "link_media_keys t_norm media_target =
     (let colon = (\<lambda>x. if \<not> startswith t_norm '':'' then strip_query ('':'' @ x)
                        else strip_query x);
          slashed = replace_char CHR '':'' CHR ''/'' t_norm;
          coloned = replace_char CHR ''/'' CHR '':'' t_norm
      in [strip_query t_norm,
          colon t_norm,
          strip_query media_target,
          (if \<not> startswith media_target '':'' then strip_query ('':'' @ media_target)
           else strip_query media_target),
          strip_query slashed,
          colon slashed,
          strip_query coloned,
          colon coloned])"

definition repl_link ::
  "(bytes \<Rightarrow> string) \<Rightarrow> string option \<Rightarrow> string \<Rightarrow> string \<Rightarrow> index \<Rightarrow> index \<Rightarrow> string
   \<Rightarrow> error + string" where
  "repl_link dec cwd current_dir current_id page_index media_index group1 =
     (let inner = py_strip group1;
          (target, title) =
            (if CHR ''|'' \<in> set inner
             then (py_strip (before_first CHR ''|'' inner),
                   py_strip (after_first CHR ''|'' inner))
             else (py_strip inner, []))
      in if target = [] then Inr title
         else if is_external target
           then Inr (''['' @ (if title \<noteq> [] then title else target) @ '']('' @ target @ '')'')
         else
           (let t_norm = py_strip (unquote dec (strip_query target));
                t_norm_base = fst (split_anchor t_norm);
                ext = ascii_lower (path_suffix t_norm_base)
            in if ext \<noteq> [] \<and> ext \<noteq> ''.md'' then
                 (let media_target = normalize_media_target dec t_norm;
                      out_media_rel =
                        (case first_hit media_index (link_media_keys t_norm media_target) of
                           None \<Rightarrow> before_first CHR ''#'' media_target
                         | Some v \<Rightarrow> v);
                      label = (if title \<noteq> [] then title else basename out_media_rel)
                  in and_then (media_rel cwd current_dir out_media_rel)
                       (\<lambda>rel. if ext \<in> set IMAGE_EXTS
                              then Inr (''!['' @ title @ '']('' @ rel @ '')'')
                              else Inr (''['' @ label @ '']('' @ rel @ '')'')))
               else
                 (let target_md_rel = resolve_page_target dec t_norm current_id page_index
                  in if target_md_rel = [] then Inr title
                     else
                       (let (target_md_rel_no_anchor, page_anchor) = split_anchor target_md_rel;
                            label =
                              (if title \<noteq> [] then title
                               else if CHR '':'' \<in> set t_norm_base
                                 then after_last CHR '':'' t_norm_base
                               else path_name t_norm_base)
                        in and_then (relposix cwd current_dir target_md_rel_no_anchor)
                             (\<lambda>rel. Inr (''['' @ label @ '']('' @ rel @ page_anchor @ '')''))))))"

subsection \<open>Substitution over the text\<close>

text \<open>
  \<open>RE.sub(repl, text)\<close> for the two patterns \<open>\{\{([^}]+?)\}\}\<close> and
  \<open>\[\[([^\]]+?)\]\]\<close>: from left to right, a doubled opening character, then the
  longest run of characters other than the closing one, not empty, then the closing
  character doubled. The group cannot hold a closing character, so a start whose run is
  not followed by two of them matches nothing, and the search goes on one character
  further. An exception of \<open>repl\<close> ends the substitution.
\<close>

function sub_delimited ::
  "char \<Rightarrow> char \<Rightarrow> (string \<Rightarrow> error + string) \<Rightarrow> string \<Rightarrow> error + string" where
  "sub_delimited opn cls repl [] = Inr []"
| "sub_delimited opn cls repl (c # cs) =
     (let group1 = takeWhile (\<lambda>x. x \<noteq> cls) (drop 1 cs);
          rest = dropWhile (\<lambda>x. x \<noteq> cls) (drop 1 cs)
      in if c = opn \<and> startswith cs [opn] \<and> group1 \<noteq> [] \<and> startswith rest [cls, cls]
         then (case repl group1 of
                 Inl e \<Rightarrow> Inl e
               | Inr r \<Rightarrow>
                   (case sub_delimited opn cls repl (drop 2 rest) of
                      Inl e \<Rightarrow> Inl e
                    | Inr t \<Rightarrow> Inr (r @ t)))
         else (case sub_delimited opn cls repl cs of
                 Inl e \<Rightarrow> Inl e
               | Inr t \<Rightarrow> Inr (c # t)))"
  by pat_completeness auto
termination
proof -
  have shorter: "length (dropWhile P (drop (Suc 0) cs)) - 2 < Suc (length cs)"
    for P :: "char \<Rightarrow> bool" and cs :: string
    using length_dropWhile_le [of P "drop (Suc 0) cs"] by simp
  show ?thesis
    by (relation "measure (\<lambda>(opn, cls, repl, s). length s)") (auto simp: shorter)
qed

definition is_blank :: "char \<Rightarrow> bool" where
  "is_blank c = (c = CHR '' '' \<or> c = CHR 0x09)"

text \<open>\<open>re.sub("[ \t]{2,}", " ", text)\<close>: a run of two or more blanks becomes one
  space.\<close>

function multispace :: "string \<Rightarrow> string" where
  "multispace [] = []"
| "multispace (c # cs) =
     (if is_blank c then
        (if takeWhile is_blank cs \<noteq> [] then '' '' else [c])
        @ multispace (dropWhile is_blank cs)
      else c # multispace cs)"
  by pat_completeness auto
termination
  by (relation "measure length") (simp_all add: length_dropWhile_le less_Suc_eq_le)

text \<open>\<open>re.sub("[ \t]+\n", "\n", text)\<close>: a run of blanks in front of a line feed is
  removed.\<close>

function trailing_blanks :: "string \<Rightarrow> string" where
  "trailing_blanks [] = []"
| "trailing_blanks (c # cs) =
     (if is_blank c then
        (if startswith (dropWhile is_blank cs) [CHR 0x0A] then []
         else c # takeWhile is_blank cs)
        @ trailing_blanks (dropWhile is_blank cs)
      else c # trailing_blanks cs)"
  by pat_completeness auto
termination
  by (relation "measure length") (simp_all add: length_dropWhile_le less_Suc_eq_le)

text \<open>\<open>text.replace("\r\n", "\n")\<close>, and with \<open>.replace("\r", "\n")\<close> after it the
  translation of line ends, which is also what reading a file in text mode does.\<close>

fun crlf_to_lf :: "string \<Rightarrow> string" where
  "crlf_to_lf (a # b # r) =
     (if a = CHR 0x0D \<and> b = CHR 0x0A then CHR 0x0A # crlf_to_lf r
      else a # crlf_to_lf (b # r))"
| "crlf_to_lf r = r"

definition universal_newlines :: "string \<Rightarrow> string" where
  "universal_newlines s = replace_char (CHR 0x0D) (CHR 0x0A) (crlf_to_lf s)"

definition convert_dokuwiki_to_markdown ::
  "(bytes \<Rightarrow> string) \<Rightarrow> string option \<Rightarrow> string \<Rightarrow> string \<Rightarrow> index \<Rightarrow> index
   \<Rightarrow> error + string" where
  "convert_dokuwiki_to_markdown dec cwd text current_note_rel_md_posix page_index media_index =
     (let text1 = replace_char (CHR 0x0D) (CHR 0x0A) (crlf_to_lf text);
          current_dir = dirname current_note_rel_md_posix;
          current_id = current_page_id_from_rel current_note_rel_md_posix
      in and_then
           (sub_delimited CHR ''{'' CHR ''}'' (repl_media dec cwd current_dir media_index) text1)
           (\<lambda>text2.
              and_then
                (sub_delimited CHR ''['' CHR '']''
                   (repl_link dec cwd current_dir current_id page_index media_index) text2)
                (\<lambda>text3.
                   Inr (replace_char (CHR 0x5C) CHR ''/''
                          (trailing_blanks (multispace text3))))))"

section \<open>Output trees\<close>

text \<open>
  An output tree (\<open>out_root/notes\<close> or \<open>out_root/media\<close>) maps the segments of a path
  below its root to what is there: a file with its bytes, or a directory. The root
  itself exists: \<open>migrate\<close> creates both roots before anything else. The source trees
  lie outside the output trees and are only read.
\<close>

datatype node = File bytes | Dir

type_synonym tree = "string list \<rightharpoonup> node"

definition path_exists :: "tree \<Rightarrow> string list \<Rightarrow> bool" where
  "path_exists fs p = (p = [] \<or> fs p \<noteq> None)"

text \<open>The destination \<open>root / Path(s)\<close> as segments below the root.\<close>

definition parse_rel :: "string \<Rightarrow> error + string list" where
  "parse_rel s =
     (let parts = path_parts s
      in if startswith s ''/'' \<or> parts = [] \<or> ''..'' \<in> set parts then Inl (Unmodelled s)
         else Inr parts)"

text \<open>\<open>p.mkdir(parents=True, exist_ok=True)\<close>, from the root down: \<open>made\<close> is the part
  of the path already known to be a directory.\<close>

fun mkdirs :: "tree \<Rightarrow> string list \<Rightarrow> string list \<Rightarrow> error + tree" where
  "mkdirs fs made [] = Inr fs"
| "mkdirs fs made (c # cs) =
     (case fs (made @ [c]) of
        None \<Rightarrow> mkdirs (fs(made @ [c] \<mapsto> Dir)) (made @ [c]) cs
      | Some Dir \<Rightarrow> mkdirs fs (made @ [c]) cs
      | Some (File b) \<Rightarrow>
          Inl (if cs = [] then FileExistsError (made @ [c])
               else NotADirectoryError (made @ [c])))"

definition safe_mkdir :: "tree \<Rightarrow> string list \<Rightarrow> error + tree" where
  "safe_mkdir fs p = mkdirs fs [] p"

text \<open>\<open>shutil.copy2(src, dst)\<close> of a readable file: into \<open>dst\<close> when \<open>dst\<close> is a
  directory, over \<open>dst\<close> otherwise.\<close>

definition copy2 :: "tree \<Rightarrow> string \<Rightarrow> bytes \<Rightarrow> string list \<Rightarrow> error + tree" where
  "copy2 fs src_name src_bytes dst =
     (case fs dst of
        Some Dir \<Rightarrow>
          (case fs (dst @ [src_name]) of
             Some Dir \<Rightarrow> Inl (IsADirectoryError (dst @ [src_name]))
           | _ \<Rightarrow> Inr (fs(dst @ [src_name] \<mapsto> File src_bytes)))
      | _ \<Rightarrow> Inr (fs(dst \<mapsto> File src_bytes)))"

text \<open>
  \<open>sha\<close> stands for \<open>sha256_file\<close>, the hexadecimal digest as a function of the bytes of
  a file. Comparing with a directory raises inside the \<open>try\<close>, which falls through to the
  copy. A destination with a NUL character in one of its segments cannot be handed to
  the operating system: \<open>mkdir\<close>, or else \<open>copy2\<close>, raises \<open>ValueError\<close> (and no such path
  exists, which is what \<open>Path.exists\<close> answers for it).
\<close>

definition copy_file_if_changed ::
  "(bytes \<Rightarrow> string) \<Rightarrow> tree \<Rightarrow> string \<Rightarrow> bytes \<Rightarrow> string list \<Rightarrow> error + tree" where
  "copy_file_if_changed sha fs src_name src_bytes dst =
     (if CHR 0x00 \<in> set (concat dst) then Inl ValueError
      else
        and_then (safe_mkdir fs (butlast dst))
          (\<lambda>fs1.
             if \<not> path_exists fs1 dst then copy2 fs1 src_name src_bytes dst
             else
               (case fs1 dst of
                  Some (File dst_bytes) \<Rightarrow>
                    if length src_bytes = length dst_bytes \<and> sha src_bytes = sha dst_bytes
                    then Inr fs1
                    else copy2 fs1 src_name src_bytes dst
                | _ \<Rightarrow> copy2 fs1 src_name src_bytes dst)))"

text \<open>\<open>str(i)\<close> for a natural number.\<close>

function str_nat :: "nat \<Rightarrow> string" where
  "str_nat n =
     (if n < 10 then [char_of (48 + n)]
      else str_nat (n div 10) @ [char_of (48 + n mod 10)])"
  by pat_completeness auto
termination
  by (relation "measure id") simp_all

declare str_nat.simps [simp del]

text \<open>The loop of \<open>unique_path_if_needed\<close> from \<open>i\<close> on.\<close>

function dup_search ::
  "tree \<Rightarrow> string list \<Rightarrow> string \<Rightarrow> string \<Rightarrow> nat \<Rightarrow> error + string list" where
  "dup_search fs parent stem suffix i =
     (if 10000 \<le> i then Inl RuntimeError
      else
        (let candidate = parent @ [stem @ ''__dup'' @ str_nat i @ suffix]
         in if \<not> path_exists fs candidate then Inr candidate
            else dup_search fs parent stem suffix (Suc i)))"
  by pat_completeness auto
termination
  by (relation "measure (\<lambda>(fs, parent, stem, suffix, i). 10000 - i)") simp_all

declare dup_search.simps [simp del]

definition unique_path_if_needed :: "tree \<Rightarrow> string list \<Rightarrow> error + string list" where
  "unique_path_if_needed fs dst =
     (if \<not> path_exists fs dst then Inr dst
      else dup_search fs (butlast dst) (name_stem (last dst)) (name_suffix (last dst)) 1)"

section \<open>Media index builder and synchronizer\<close>

text \<open>
  The media files are what \<open>media_root.rglob("*")\<close> yields and \<open>is_file\<close> keeps, in
  that order: the path of each file relative to \<open>media_root\<close>, and its bytes.
\<close>

type_synonym media_file = "string \<times> bytes"

definition key_variants :: "(bytes \<Rightarrow> string) \<Rightarrow> string \<Rightarrow> string \<Rightarrow> string list" where
  "key_variants dec rel_src_posix rel_decoded_posix =
     (let colons = replace_char CHR ''/'' CHR '':''
      in [strip_query rel_src_posix,
          strip_query ('':'' @ rel_src_posix),
          strip_query (colons rel_src_posix),
          strip_query ('':'' @ colons rel_src_posix),
          strip_query rel_decoded_posix,
          strip_query ('':'' @ rel_decoded_posix),
          strip_query (colons rel_decoded_posix),
          strip_query ('':'' @ colons rel_decoded_posix),
          strip_query (unquote dec rel_src_posix),
          strip_query ('':'' @ unquote dec rel_src_posix),
          strip_query (colons (unquote dec rel_src_posix)),
          strip_query ('':'' @ colons (unquote dec rel_src_posix))])"

text \<open>The body of the loop of \<open>build_media_index_and_copy\<close> for one file\<close>

definition sync_media_file ::
  "(bytes \<Rightarrow> string) \<Rightarrow> (bytes \<Rightarrow> string) \<Rightarrow> media_file \<Rightarrow> index \<times> tree \<Rightarrow> error + index \<times> tree" where
  "sync_media_file dec sha src st =
     (let (rel_src, src_bytes) = src;
          (idx, fs) = st;
          rel_src_posix = to_posix rel_src;
          rel_decoded_posix = strip_query (decode_path_segments dec rel_src_posix)
      in and_then (parse_rel rel_decoded_posix)
           (\<lambda>dst.
              and_then (unique_path_if_needed fs dst)
                (\<lambda>dst_unique.
                   and_then (copy_file_if_changed sha fs (path_name rel_src) src_bytes dst_unique)
                     (\<lambda>fs'.
                        let out_rel_posix_final = to_posix (join_with ''/'' dst_unique)
                        in Inr (fold (\<lambda>k m. m(k \<mapsto> out_rel_posix_final))
                                  (key_variants dec rel_src_posix rel_decoded_posix) idx,
                                fs')))))"

text \<open>and the loop.\<close>

fun sync_media ::
  "(bytes \<Rightarrow> string) \<Rightarrow> (bytes \<Rightarrow> string) \<Rightarrow> media_file list \<Rightarrow> index \<times> tree \<Rightarrow> error + index \<times> tree"
  where
  "sync_media dec sha [] st = Inr st"
| "sync_media dec sha (src # rest) st =
     and_then (sync_media_file dec sha src st) (sync_media dec sha rest)"

definition build_media_index_and_copy ::
  "(bytes \<Rightarrow> string) \<Rightarrow> (bytes \<Rightarrow> string) \<Rightarrow> media_file list \<Rightarrow> tree \<Rightarrow> error + index \<times> tree" where
  "build_media_index_and_copy dec sha media_files out_media =
     sync_media dec sha media_files (Map.empty, out_media)"

section \<open>Output writer and the pipeline\<close>

text \<open>
  Reading a file as text decodes its bytes and translates the line ends. The existing
  note is compared as read; a destination that is a directory cannot be read, which the
  \<open>except\<close> swallows, and cannot be written, which raises.
\<close>

definition write_text_if_changed ::
  "(bytes \<Rightarrow> string) \<Rightarrow> tree \<Rightarrow> string list \<Rightarrow> string \<Rightarrow> error + tree" where
  "write_text_if_changed dec fs dst text =
     (if (case fs dst of
            Some (File old_bytes) \<Rightarrow> universal_newlines (dec old_bytes) = text
          | _ \<Rightarrow> False)
      then Inr fs
      else
        and_then (safe_mkdir fs (butlast dst))
          (\<lambda>fs1. case fs1 dst of
                   Some Dir \<Rightarrow> Inl (IsADirectoryError dst)
                 | _ \<Rightarrow> Inr (fs1(dst \<mapsto> File text))))"

text \<open>The body of the loop of \<open>migrate\<close> over the pages, for one page\<close>

definition convert_page ::
  "(bytes \<Rightarrow> string) \<Rightarrow> string option \<Rightarrow> index \<Rightarrow> index \<Rightarrow> page \<Rightarrow> tree \<Rightarrow> error + tree"
  where
  "convert_page dec cwd page_index media_index src out_notes =
     (let (rel_src, content) = src
      in and_then (with_suffix rel_src [])
           (\<lambda>rel_noext.
              and_then (with_suffix rel_noext ''.md'')
                (\<lambda>rel_md.
                   and_then (parse_rel rel_md)
                     (\<lambda>dst.
                        case content of
                          None \<Rightarrow> Inl (OSError rel_src)
                        | Some src_bytes \<Rightarrow>
                            and_then
                              (convert_dokuwiki_to_markdown dec cwd
                                 (universal_newlines (dec src_bytes)) (to_posix rel_md)
                                 page_index media_index)
                              (\<lambda>converted. write_text_if_changed dec out_notes dst converted)))))"

text \<open>and the loop.\<close>

fun convert_pages ::
  "(bytes \<Rightarrow> string) \<Rightarrow> string option \<Rightarrow> index \<Rightarrow> index \<Rightarrow> page list \<Rightarrow> tree
   \<Rightarrow> error + tree" where
  "convert_pages dec cwd page_index media_index [] out_notes = Inr out_notes"
| "convert_pages dec cwd page_index media_index (src # rest) out_notes =
     and_then (convert_page dec cwd page_index media_index src out_notes)
       (convert_pages dec cwd page_index media_index rest)"

record out_trees =
  out_notes :: tree
  out_media :: tree

definition migrate ::
  "(bytes \<Rightarrow> string) \<Rightarrow> (bytes \<Rightarrow> string) \<Rightarrow> string option \<Rightarrow> page list \<Rightarrow> media_file list
   \<Rightarrow> out_trees \<Rightarrow> error + out_trees" where
  "migrate dec sha cwd pages media_files out =
     and_then (build_page_index pages)
       (\<lambda>page_index.
          and_then (build_media_index_and_copy dec sha media_files (out_media out))
            (\<lambda>(media_index, media').
               and_then (convert_pages dec cwd page_index media_index pages (out_notes out))
                 (\<lambda>notes'. Inr \<lparr>out_notes = notes', out_media = media'\<rparr>)))"

section \<open>Notions used in the statements\<close>



text \<open>What \<open>normpath\<close> keeps of a path: segments that are not empty and hold no slash.\<close>

definition plain :: "string \<Rightarrow> bool" where
  "plain x = (x \<noteq> [] \<and> CHR ''/'' \<notin> set x)"

text \<open>An output directory before the first run.\<close>

definition empty_out :: out_trees where
  "empty_out = \<lparr>out_notes = Map.empty, out_media = Map.empty\<rparr>"

section \<open>Properties of the string helpers\<close>

lemma before_first_no_sep: "d \<notin> set (before_first d s)"
  unfolding before_first_def by (induction s) auto

lemma before_first_id: "d \<notin> set s \<Longrightarrow> before_first d s = s"
  unfolding before_first_def by (induction s) auto

lemma before_after_first:
  "d \<in> set s \<Longrightarrow> before_first d s @ d # after_first d s = s"
  unfolding before_first_def after_first_def by (induction s) auto

lemma before_first_append:
  "d \<notin> set p \<Longrightarrow> before_first d (p @ d # r) = p"
  unfolding before_first_def by (induction p) auto

lemma split_on_not_Nil: "split_on d s \<noteq> []"
  by (induction s) (auto split: list.splits)

lemma split_on_append: "split_on d (p @ d # q) = split_on d p @ split_on d q"
proof (induction p)
  case Nil
  show ?case by simp
next
  case (Cons c p)
  obtain x xs where x: "split_on d p = x # xs"
    using split_on_not_Nil [of d p] by (cases "split_on d p") auto
  show ?case using Cons x by simp
qed

lemma split_on_no_sep: "d \<notin> set s \<Longrightarrow> split_on d s = [s]"
  by (induction s) auto

lemma split_on_pieces: "x \<in> set (split_on d s) \<Longrightarrow> d \<notin> set x"
proof (induction s arbitrary: x)
  case Nil
  then show ?case by simp
next
  case (Cons c s)
  obtain y ys where y: "split_on d s = y # ys"
    using split_on_not_Nil [of d s] by (cases "split_on d s") auto
  show ?case
    using Cons.prems Cons.IH y by (auto split: if_splits)
qed

lemma split_on_leading: "split_on d (replicate n d @ s) = replicate n [] @ split_on d s"
  by (induction n) auto

lemma split_on_join:
  "segs \<noteq> [] \<Longrightarrow> \<forall>x\<in>set segs. d \<notin> set x \<Longrightarrow> split_on d (join_with [d] segs) = segs"
proof (induction segs)
  case Nil
  then show ?case by simp
next
  case (Cons p ps)
  show ?case
  proof (cases ps)
    case Nil
    then show ?thesis using Cons.prems by (simp add: split_on_no_sep)
  next
    case (Cons q qs)
    have "split_on d (p @ d # join_with [d] ps) = split_on d p @ split_on d (join_with [d] ps)"
      by (rule split_on_append)
    then show ?thesis
      using Cons Cons.prems Cons.IH by (simp add: split_on_no_sep)
  qed
qed






section \<open>Query stripping\<close>

lemma strip_query_no_query: "CHR ''?'' \<notin> set s \<Longrightarrow> strip_query s = s"
  by (simp add: strip_query_def)

lemma strip_query_hash_first:
  assumes h: "CHR ''#'' \<in> set s"
    and q: "CHR ''?'' \<notin> set (before_first CHR ''#'' s)"
  shows "strip_query s = s"
proof (cases "CHR ''?'' \<in> set s")
  case False
  then show ?thesis by (simp add: strip_query_def)
next
  case True
  have "before_first CHR ''?'' (before_first CHR ''#'' s) = before_first CHR ''#'' s"
    using q by (rule before_first_id)
  moreover have "before_first CHR ''#'' s @ CHR ''#'' # after_first CHR ''#'' s = s"
    using h by (rule before_after_first)
  ultimately show ?thesis
    using True h by (simp add: strip_query_def Let_def)
qed

lemma strip_query_idem: "strip_query (strip_query s) = strip_query s"
proof (cases "CHR ''?'' \<in> set s")
  case False
  then show ?thesis by (simp add: strip_query_def)
next
  case q: True
  show ?thesis
  proof (cases "CHR ''#'' \<in> set s")
    case False
    have "CHR ''?'' \<notin> set (before_first CHR ''?'' s)"
      by (rule before_first_no_sep)
    moreover have "strip_query s = before_first CHR ''?'' s"
      using q False by (simp add: strip_query_def)
    ultimately show ?thesis by (simp add: strip_query_no_query)
  next
    case True
    define bq where "bq = before_first CHR ''?'' (before_first CHR ''#'' s)"
    define ah where "ah = after_first CHR ''#'' s"
    have r: "strip_query s = bq @ CHR ''#'' # ah"
      using q True by (simp add: strip_query_def Let_def bq_def ah_def)
    have nq: "CHR ''?'' \<notin> set bq"
      unfolding bq_def by (rule before_first_no_sep)
    have "set bq \<subseteq> set (before_first CHR ''#'' s)"
      unfolding bq_def before_first_def by (auto dest: set_takeWhileD)
    then have nh: "CHR ''#'' \<notin> set bq"
      using before_first_no_sep [of "CHR ''#''" s] by blast
    have "before_first CHR ''#'' (bq @ CHR ''#'' # ah) = bq"
      using nh by (rule before_first_append)
    then have "CHR ''?'' \<notin> set (before_first CHR ''#'' (strip_query s))"
      using nq r by simp
    moreover have "CHR ''#'' \<in> set (strip_query s)"
      using r by simp
    ultimately show ?thesis by (rule strip_query_hash_first [rotated])
  qed
qed

text \<open>
  Claim C6. \<open>strip_query\<close> maps \<open>image.png?800\<close> to \<open>image.png\<close> and
  \<open>x.pdf?download#p=2\<close> to \<open>x.pdf#p=2\<close>; it returns a string without \<open>?\<close> unchanged;
  and applying it twice gives what applying it once gives.
\<close>

theorem strip_query_spec:
  "strip_query ''image.png?800'' = ''image.png''
   \<and> strip_query ''x.pdf?download#p=2'' = ''x.pdf#p=2''
   \<and> (\<forall>s. CHR ''?'' \<notin> set s \<longrightarrow> strip_query s = s)
   \<and> (\<forall>s. strip_query (strip_query s) = strip_query s)"
proof -
  have a: "strip_query ''image.png?800'' = ''image.png''"
    by (simp add: strip_query_def before_first_def)
  have b: "strip_query ''x.pdf?download#p=2'' = ''x.pdf#p=2''"
    by (simp add: strip_query_def before_first_def after_first_def)
  show ?thesis
    using a b strip_query_no_query strip_query_idem by blast
qed

theorem strip_query_spec_witness:
  "CHR ''?'' \<notin> set ''a/b.png'' \<and> strip_query ''a/b.png'' = ''a/b.png''
   \<and> strip_query (strip_query ''a?b#c?d'') = strip_query ''a?b#c?d''"
proof -
  have n: "CHR ''?'' \<notin> set ''a/b.png''" by simp
  from strip_query_spec have "CHR ''?'' \<notin> set ''a/b.png'' \<longrightarrow> strip_query ''a/b.png'' = ''a/b.png''"
    and "strip_query (strip_query ''a?b#c?d'') = strip_query ''a?b#c?d''"
    by blast+
  with n show ?thesis by blast
qed

text \<open>
  Claim C10. When the first \<open>#\<close> of a string comes before its first \<open>?\<close> (there is a
  \<open>#\<close>, and no \<open>?\<close> in front of it), \<open>strip_query\<close> returns the string unchanged: a
  \<open>?\<close> inside the anchor fragment is kept.
\<close>

theorem strip_query_anchor_first:
  "CHR ''#'' \<in> set s \<Longrightarrow> CHR ''?'' \<notin> set (before_first CHR ''#'' s)
   \<Longrightarrow> strip_query s = s"
  by (rule strip_query_hash_first)

theorem strip_query_anchor_first_witness:
  "CHR ''#'' \<in> set ''a#b?c'' \<and> CHR ''?'' \<notin> set (before_first CHR ''#'' ''a#b?c'')
   \<and> CHR ''?'' \<in> set ''a#b?c'' \<and> strip_query ''a#b?c'' = ''a#b?c''"
proof -
  have h: "CHR ''#'' \<in> set ''a#b?c''" by simp
  have q: "CHR ''?'' \<notin> set (before_first CHR ''#'' ''a#b?c'')"
    by (simp add: before_first_def)
  show ?thesis
    using h q strip_query_anchor_first [OF h q] by simp
qed

section \<open>Path segments\<close>












section \<open>Percent-decoding and relative paths never fail but on an empty target\<close>




lemma abspath_absolute: "startswith p ''/'' \<Longrightarrow> abspath cwd p = Inr (normpath p)"
  by (simp add: abspath_def)

lemma abspath_gone: "\<not> startswith p ''/'' \<Longrightarrow> abspath None p = Inl FileNotFoundError"
  by (simp add: abspath_def)






section \<open>Relative page links\<close>

lemma norm_step_plain:
  "list_all plain acc \<Longrightarrow> CHR ''/'' \<notin> set x \<Longrightarrow> list_all plain (norm_step n acc x)"
  by (auto simp: norm_step_def plain_def list_all_iff dest: in_set_butlastD)

lemma norm_fold_plain:
  "list_all plain acc \<Longrightarrow> \<forall>x\<in>set xs. CHR ''/'' \<notin> set x
   \<Longrightarrow> list_all plain (foldl (norm_step n) acc xs)"
  by (induction xs arbitrary: acc) (auto simp: norm_step_plain)

lemma norm_comps_plain: "list_all plain (foldl (norm_step n) [] (split_on CHR ''/'' p))"
  by (rule norm_fold_plain) (auto dest: split_on_pieces)

lemma norm_comps_snoc:
  assumes "CHR ''/'' \<notin> set seg" "seg \<noteq> []" "seg \<noteq> ''.''" "seg \<noteq> ''..''"
  shows "foldl (norm_step n) [] (split_on CHR ''/'' (X @ CHR ''/'' # seg))
         = foldl (norm_step n) [] (split_on CHR ''/'' X) @ [seg]"
  using assms by (simp add: split_on_append split_on_no_sep norm_step_def)

lemma initial_slashes_append:
  "3 \<le> length X \<Longrightarrow> initial_slashes (X @ r) = initial_slashes X"
  by (simp add: initial_slashes_def startswith_def)

lemma join_plain_not_Nil: "L \<noteq> [] \<Longrightarrow> list_all plain L \<Longrightarrow> join_with sep L \<noteq> []"
  by (induction sep L rule: join_with.induct) (auto simp: plain_def)

lemma normpath_comps:
  assumes "p \<noteq> []"
    and "foldl (norm_step (initial_slashes p)) [] (split_on CHR ''/'' p) = L"
    and "L \<noteq> []"
  shows "filter (\<lambda>x. x \<noteq> []) (split_on CHR ''/'' (normpath p)) = L"
proof -
  have pl: "list_all plain L"
    using norm_comps_plain [of "initial_slashes p" p] assms(2) by simp
  then have j: "join_with ''/'' L \<noteq> []"
    using assms(3) by (intro join_plain_not_Nil)
  have "normpath p = replicate (initial_slashes p) CHR ''/'' @ join_with ''/'' L"
    using assms(1,2) j by (simp add: normpath_def Let_def)
  moreover have "split_on CHR ''/'' (join_with ''/'' L) = L"
    using pl assms(3) by (intro split_on_join) (auto simp: list_all_iff plain_def)
  moreover have "filter (\<lambda>x. x \<noteq> []) L = L"
    using pl by (induction L) (auto simp: plain_def)
  ultimately show ?thesis
    by (simp add: split_on_leading)
qed

lemma common_prefix_snoc: "common_prefix L (L @ r) = L"
  by (induction L) auto

text \<open>From the directory \<open>a/b\<close> to \<open>a/b/c.md\<close>, in any working directory.\<close>

lemma relposix_sibling: "relposix (Some cwd) ''a/b'' ''a/b/c.md'' = Inr ''c.md''"
proof -
  define J where "J = (if cwd = [] \<or> endswith cwd ''/'' then cwd else cwd @ ''/'')"
  define P1 where "P1 = J @ ''a/b''"
  define n where "n = initial_slashes P1"
  define C where "C = foldl (norm_step n) [] (split_on CHR ''/'' (J @ ''a''))"
  have a1: "abspath (Some cwd) ''a/b'' = Inr (normpath P1)"
    by (simp add: abspath_def posix_join2_def startswith_def J_def P1_def)
  have a2: "abspath (Some cwd) ''a/b/c.md'' = Inr (normpath (P1 @ ''/c.md''))"
    by (simp add: abspath_def posix_join2_def startswith_def J_def P1_def)
  have n2: "initial_slashes (P1 @ ''/c.md'') = n"
    unfolding n_def by (rule initial_slashes_append) (simp add: P1_def)
  have c1: "foldl (norm_step n) [] (split_on CHR ''/'' P1) = C @ [''b'']"
    using norm_comps_snoc [of "''b''" n "J @ ''a''"] by (simp add: P1_def C_def)
  have c2: "foldl (norm_step n) [] (split_on CHR ''/'' (P1 @ ''/c.md'')) = C @ [''b'', ''c.md'']"
    using norm_comps_snoc [of "''c.md''" n P1] c1 by simp
  have s1: "filter (\<lambda>x. x \<noteq> []) (split_on CHR ''/'' (normpath P1)) = C @ [''b'']"
    by (rule normpath_comps) (use c1 in \<open>simp_all add: P1_def n_def\<close>)
  have s2: "filter (\<lambda>x. x \<noteq> []) (split_on CHR ''/'' (normpath (P1 @ ''/c.md'')))
            = (C @ [''b'']) @ [''c.md'']"
    by (rule normpath_comps) (use c2 n2 in \<open>simp_all add: P1_def\<close>)
  show ?thesis
    by (simp add: relposix_def relpath_def and_then_def Let_def a1 a2 s1 s2 common_prefix_snoc
        posix_join_def replace_char_def del: append_assoc)
qed

lemma resolved_id_c: "resolved_id ''c'' ''a:b:page'' = ''a:b:c''"
  by code_simp

lemma target_c:
  "py_strip ''c'' = ''c''" "strip_query ''c'' = ''c''" "unquote dec ''c'' = ''c''"
  "split_anchor ''c'' = (''c'', [])" "path_suffix ''c'' = []" "is_external ''c'' = False"
  "path_name ''c'' = ''c''" "ascii_lower [] = []"
  by (code_simp | simp add: unquote_def)+

lemma page_index_ab:
  "build_page_index [(''a/b/page.txt'', x), (''a/b/c.txt'', y)] = Inr
     [''a:b:page'' \<mapsto> ''a/b/page.md'', '':a:b:page'' \<mapsto> ''a/b/page.md'',
      ''a:b:c'' \<mapsto> ''a/b/c.md'', '':a:b:c'' \<mapsto> ''a/b/c.md'']"
proof -
  have 1: "with_suffix ''a/b/page.txt'' [] = Inr ''a/b/page''" by code_simp
  have 2: "with_suffix ''a/b/c.txt'' [] = Inr ''a/b/c''" by code_simp
  have 3: "to_posix ''a/b/page'' = ''a/b/page''" "to_posix ''a/b/c'' = ''a/b/c''"
    by code_simp+
  have 4: "replace_char CHR ''/'' CHR '':'' ''a/b/page'' = ''a:b:page''"
    "replace_char CHR ''/'' CHR '':'' ''a/b/c'' = ''a:b:c''"
    by code_simp+
  show ?thesis
    by (simp add: build_page_index_def and_then_def Let_def 1 2 3 4)
qed

lemma resolve_c:
  "page_index ''a:b:c'' = Some ''a/b/c.md'' \<Longrightarrow>
   resolve_page_target dec ''c'' ''a:b:page'' page_index = ''a/b/c.md''"
  by (simp add: resolve_page_target_def target_c resolved_id_c get_or_def replace_char_def)

lemma repl_link_c:
  assumes "page_index ''a:b:c'' = Some ''a/b/c.md''"
  shows "repl_link dec (Some cwd) ''a/b'' ''a:b:page'' page_index media_index ''c'' = Inr ''[c](c.md)''"
proof -
  have sa: "split_anchor ''a/b/c.md'' = (''a/b/c.md'', [])" by code_simp
  show ?thesis
    by (simp add: repl_link_def target_c resolve_c [where page_index = page_index, OF assms] sa
        relposix_sibling and_then_def)
qed

lemma convert_link_c:
  assumes i: "page_index ''a:b:c'' = Some ''a/b/c.md''"
  shows "convert_dokuwiki_to_markdown dec (Some cwd) ''[[c]]'' ''a/b/page.md'' page_index media_index
         = Inr ''[c](c.md)''"
proof -
  have d: "dirname ''a/b/page.md'' = ''a/b''" by code_simp
  have c: "current_page_id_from_rel ''a/b/page.md'' = ''a:b:page''" by code_simp
  have n: "replace_char (CHR 0x0D) (CHR 0x0A) (crlf_to_lf ''[[c]]'') = ''[[c]]''"
    by (simp add: replace_char_def)
  have m: "sub_delimited CHR ''{'' CHR ''}'' f ''[[c]]'' = Inr ''[[c]]''" for f
    by (simp add: startswith_def)
  have l: "sub_delimited CHR ''['' CHR '']''
             (repl_link dec (Some cwd) ''a/b'' ''a:b:page'' page_index media_index) ''[[c]]''
           = Inr ''[c](c.md)''"
    by (simp add: startswith_def repl_link_c [where page_index = page_index, OF i])
  have t: "replace_char (CHR 0x5C) CHR ''/'' (trailing_blanks (multispace ''[c](c.md)''))
           = ''[c](c.md)''"
    by code_simp
  show ?thesis
    by (simp add: convert_dokuwiki_to_markdown_def Let_def d c n m l and_then_def t
        del: sub_delimited.simps multispace.simps trailing_blanks.simps crlf_to_lf.simps)
qed

text \<open>
  Claim C7. The note \<open>a/b/page.md\<close> has the identifier \<open>a:b:page\<close>. From that page the
  target \<open>c\<close>, which holds no namespace separator, resolves to the identifier \<open>a:b:c\<close>.
  With the page index of a tree that holds \<open>a/b/page.txt\<close> and \<open>a/b/c.txt\<close> the target
  resolves to the note \<open>a/b/c.md\<close>; the path from the directory \<open>a/b\<close> to it is \<open>c.md\<close>,
  in any working directory; and the link \<open>[[c]]\<close> is rewritten to \<open>[c](c.md)\<close>, by
  \<open>repl_link\<close> and by the conversion of a page that holds just that link.
\<close>

theorem relative_link_resolution:
  "current_page_id_from_rel ''a/b/page.md'' = ''a:b:page''
   \<and> dirname ''a/b/page.md'' = ''a/b''
   \<and> resolved_id ''c'' ''a:b:page'' = ''a:b:c''
   \<and> relposix (Some cwd) ''a/b'' ''a/b/c.md'' = Inr ''c.md''
   \<and> (case build_page_index [(''a/b/page.txt'', x), (''a/b/c.txt'', y)] of
         Inl e \<Rightarrow> False
       | Inr page_index \<Rightarrow>
           page_index ''a:b:c'' = Some ''a/b/c.md''
           \<and> resolve_page_target dec ''c'' ''a:b:page'' page_index = ''a/b/c.md''
           \<and> repl_link dec (Some cwd) ''a/b'' ''a:b:page'' page_index media_index ''c''
               = Inr ''[c](c.md)''
           \<and> convert_dokuwiki_to_markdown dec (Some cwd) ''[[c]]'' ''a/b/page.md''
                 page_index media_index
               = Inr ''[c](c.md)'')"
proof -
  define page_index :: index where
    "page_index = [''a:b:page'' \<mapsto> ''a/b/page.md'', '':a:b:page'' \<mapsto> ''a/b/page.md'',
                   ''a:b:c'' \<mapsto> ''a/b/c.md'', '':a:b:c'' \<mapsto> ''a/b/c.md'']"
  have i: "page_index ''a:b:c'' = Some ''a/b/c.md''"
    by (simp add: page_index_def)
  have b: "build_page_index [(''a/b/page.txt'', x), (''a/b/c.txt'', y)] = Inr page_index"
    unfolding page_index_def by (rule page_index_ab)
  have c: "current_page_id_from_rel ''a/b/page.md'' = ''a:b:page''" by code_simp
  have d: "dirname ''a/b/page.md'' = ''a/b''" by code_simp
  show ?thesis
    unfolding b
    using i c d resolved_id_c relposix_sibling [of cwd]
      resolve_c [where page_index = page_index and dec = dec, OF i]
      repl_link_c [where page_index = page_index and dec = dec and cwd = cwd
        and media_index = media_index, OF i]
      convert_link_c [where page_index = page_index and dec = dec and cwd = cwd
        and media_index = media_index, OF i]
    by simp
qed

section \<open>Dangling page links\<close>




section \<open>Pages that cannot be read\<close>

lemma convert_page_unreadable:
  "\<exists>e. convert_page dec cwd page_index media_index (rel, None) fs = Inl e"
  by (auto simp: convert_page_def and_then_def split: sum.splits)

lemma convert_pages_append:
  "convert_pages dec cwd page_index media_index (ps @ qs) fs
   = and_then (convert_pages dec cwd page_index media_index ps fs)
       (convert_pages dec cwd page_index media_index qs)"
  by (induction ps arbitrary: fs) (auto simp: and_then_def split: sum.splits)

lemma convert_pages_unreadable:
  "(rel, None) \<in> set pages \<Longrightarrow>
   \<exists>e. convert_pages dec cwd page_index media_index pages fs = Inl e"
proof (induction pages arbitrary: fs)
  case Nil
  then show ?case by simp
next
  case (Cons p ps)
  show ?case
  proof (cases "convert_page dec cwd page_index media_index p fs")
    case (Inl e)
    then show ?thesis by (simp add: and_then_def)
  next
    case (Inr fs')
    then have "p \<noteq> (rel, None)"
      using convert_page_unreadable [of dec cwd page_index media_index rel fs] by auto
    then have "(rel, None) \<in> set ps" using Cons.prems by simp
    then show ?thesis using Cons.IH [of fs'] Inr by (simp add: and_then_def)
  qed
qed

lemma migrate_unreadable:
  assumes "(rel, None) \<in> set pages"
  shows "\<exists>e. migrate dec sha cwd pages media_files out = Inl e"
proof (cases "build_page_index pages")
  case (Inl e)
  then show ?thesis by (simp add: migrate_def and_then_def)
next
  case pi: (Inr page_index)
  show ?thesis
  proof (cases "build_media_index_and_copy dec sha media_files (out_media out)")
    case (Inl e)
    then show ?thesis using pi by (simp add: migrate_def and_then_def)
  next
    case (Inr r)
    obtain media_index media' where r: "r = (media_index, media')" by (cases r)
    obtain e where "convert_pages dec cwd page_index media_index pages (out_notes out) = Inl e"
      using convert_pages_unreadable [OF assms] by blast
    then show ?thesis using pi Inr r by (simp add: migrate_def and_then_def)
  qed
qed

lemma convert_pages_unreadable_head:
  "convert_pages dec cwd page_index media_index ((rel, None) # qs) fs
   = convert_pages dec cwd page_index media_index [(rel, None)] fs"
proof -
  obtain e where "convert_page dec cwd page_index media_index (rel, None) fs = Inl e"
    using convert_page_unreadable [of dec cwd page_index media_index rel fs] by blast
  then show ?thesis by (simp add: and_then_def)
qed

lemma convert_pages_stop:
  "convert_pages dec cwd page_index media_index (ps @ (rel, None) # qs) fs
   = convert_pages dec cwd page_index media_index (ps @ [(rel, None)]) fs"
proof (cases "convert_pages dec cwd page_index media_index ps fs")
  case (Inl e)
  then show ?thesis by (simp add: convert_pages_append and_then_def)
next
  case (Inr fs')
  then show ?thesis
    using convert_pages_unreadable_head [of dec cwd page_index media_index rel qs fs']
    by (simp add: convert_pages_append and_then_def del: convert_pages.simps)
qed

text \<open>
  Claim C4, as the code has it. A page that cannot be read is not skipped: \<open>migrate\<close>
  reads every page without a handler, so with such a page among its sources the run
  ends with an exception and returns no output; and the pages that come after the
  unreadable one play no part in what the loop over the pages does.
\<close>

theorem unreadable_page_aborts:
  "((rel, None) \<in> set pages \<longrightarrow> (\<exists>e. migrate dec sha cwd pages media_files out = Inl e))
   \<and> convert_pages dec cwd page_index media_index (ps @ (rel, None) # qs) fs
       = convert_pages dec cwd page_index media_index (ps @ [(rel, None)]) fs"
  using migrate_unreadable [of rel pages dec sha cwd media_files out]
    convert_pages_stop [of dec cwd page_index media_index ps rel qs fs]
  by blast

theorem unreadable_page_aborts_witness:
  "(''b.txt'', None) \<in> set [(''a.txt'', Some ''x''), (''b.txt'', None)]
   \<and> (\<exists>e. migrate (\<lambda>b. b) (\<lambda>b. b) (Some ''/srv/wiki'')
              [(''a.txt'', Some ''x''), (''b.txt'', None)] [] empty_out = Inl e)"
proof -
  have m: "(''b.txt'', None) \<in> set [(''a.txt'', Some ''x''), (''b.txt'', None)]"
    by simp
  from unreadable_page_aborts
    [of "''b.txt''" "[(''a.txt'', Some ''x''), (''b.txt'', None)]" "\<lambda>b. b" "\<lambda>b. b"
       "(Some ''/srv/wiki'')" "[]" empty_out]
  have "(''b.txt'', None) \<in> set [(''a.txt'', Some ''x''), (''b.txt'', None)] \<longrightarrow>
        (\<exists>e. migrate (\<lambda>b. b) (\<lambda>b. b) (Some ''/srv/wiki'')
               [(''a.txt'', Some ''x''), (''b.txt'', None)] [] empty_out = Inl e)"
    by blast
  with m show ?thesis by blast
qed

text \<open>
  Against claim C4 as stated. With the unreadable page \<open>a.txt\<close> in front of the readable
  page \<open>b.txt\<close> the run ends with the error of reading \<open>a.txt\<close>; without \<open>a.txt\<close> the
  same run writes the note \<open>b.md\<close>.
\<close>

theorem unreadable_page_not_skipped:
  "(case migrate (\<lambda>b. b) (\<lambda>b. b) (Some ''/srv/wiki'') [(''a.txt'', None), (''b.txt'', Some ''x'')]
           [] empty_out of
      Inl e \<Rightarrow> e = OSError ''a.txt''
    | Inr out \<Rightarrow> False)
   \<and> (case migrate (\<lambda>b. b) (\<lambda>b. b) (Some ''/srv/wiki'') [(''b.txt'', Some ''x'')] [] empty_out of
         Inl e \<Rightarrow> False
       | Inr out \<Rightarrow> out_notes out [''b.md''] = Some (File ''x''))"
  by code_simp

section \<open>Media files whose destination exists\<close>

lemma path_exists_same:
  "(\<And>p. (fs p = None) = (fs' p = None)) \<Longrightarrow> path_exists fs p = path_exists fs' p"
  by (simp add: path_exists_def)

lemma dup_search_same:
  "(\<And>p. (fs p = None) = (fs' p = None)) \<Longrightarrow>
   dup_search fs parent stem suffix i = dup_search fs' parent stem suffix i"
proof (induction fs parent stem suffix i rule: dup_search.induct)
  case (1 fs parent stem suffix i)
  have e: "path_exists fs p = path_exists fs' p" for p
    using "1.prems" by (rule path_exists_same)
  show ?case
  proof (cases "10000 \<le> i")
    case True
    then show ?thesis by (simp add: dup_search.simps)
  next
    case False
    show ?thesis
    proof (cases "path_exists fs (parent @ [stem @ ''__dup'' @ str_nat i @ suffix])")
      case True
      then show ?thesis
        using False "1.IH" [OF False refl] "1.prems" e
        by (subst dup_search.simps, subst (2) dup_search.simps) (simp add: Let_def)
    next
      case no: False
      then show ?thesis
        using False e
        by (subst dup_search.simps, subst (2) dup_search.simps) (simp add: Let_def)
    qed
  qed
qed

lemma unique_path_same:
  "(\<And>p. (fs p = None) = (fs' p = None)) \<Longrightarrow>
   unique_path_if_needed fs dst = unique_path_if_needed fs' dst"
  using dup_search_same [of fs fs'] path_exists_same [of fs fs']
  by (simp add: unique_path_if_needed_def)

text \<open>
  Claim C2, on the code. \<open>unique_path_if_needed\<close> asks only which paths exist: on two
  output trees that hold the same paths, whatever the bytes of the files, it gives the
  same answer. So when the output holds \<open>a.png\<close> with the bytes \<open>X\<close> and the media tree
  holds \<open>a.png\<close> with the same bytes, as on a second run, the answer is \<open>a__dup1.png\<close>,
  as it is when the destination holds other bytes; the synchronizer copies the file
  there and registers that path, and the output holds the same bytes twice.
\<close>

theorem identical_destination_gets_suffix:
  "((\<forall>p. (fs p = None) = (fs' p = None)) \<longrightarrow>
      unique_path_if_needed fs dst = unique_path_if_needed fs' dst)
   \<and> unique_path_if_needed [[''a.png''] \<mapsto> File ''X''] [''a.png''] = Inr [''a__dup1.png'']
   \<and> unique_path_if_needed [[''a.png''] \<mapsto> File ''Y''] [''a.png''] = Inr [''a__dup1.png'']
   \<and> (case build_media_index_and_copy dec sha [(''a.png'', ''X'')]
              [[''a.png''] \<mapsto> File ''X''] of
         Inl e \<Rightarrow> False
       | Inr (idx, fs) \<Rightarrow>
           idx ''a.png'' = Some ''a__dup1.png''
           \<and> fs [''a.png''] = Some (File ''X'')
           \<and> fs [''a__dup1.png''] = Some (File ''X''))"
proof -
  have "unique_path_if_needed [[''a.png''] \<mapsto> File ''X''] [''a.png''] = Inr [''a__dup1.png'']
   \<and> unique_path_if_needed [[''a.png''] \<mapsto> File ''Y''] [''a.png''] = Inr [''a__dup1.png'']
   \<and> (case build_media_index_and_copy dec sha [(''a.png'', ''X'')]
              [[''a.png''] \<mapsto> File ''X''] of
         Inl e \<Rightarrow> False
       | Inr (idx, fs) \<Rightarrow>
           idx ''a.png'' = Some ''a__dup1.png''
           \<and> fs [''a.png''] = Some (File ''X'')
           \<and> fs [''a__dup1.png''] = Some (File ''X''))"
    by code_simp
  then show ?thesis
    using unique_path_same [of fs fs' dst] by blast
qed

theorem identical_destination_gets_suffix_witness:
  "(\<forall>p. (([[''d'', ''a.png''] \<mapsto> File ''X''] :: tree) p = None)
         = (([[''d'', ''a.png''] \<mapsto> File ''other''] :: tree) p = None))
   \<and> unique_path_if_needed [[''d'', ''a.png''] \<mapsto> File ''X''] [''d'', ''a.png'']
       = unique_path_if_needed [[''d'', ''a.png''] \<mapsto> File ''other''] [''d'', ''a.png'']"
proof -
  have h: "\<forall>p. (([[''d'', ''a.png''] \<mapsto> File ''X''] :: tree) p = None)
         = (([[''d'', ''a.png''] \<mapsto> File ''other''] :: tree) p = None)"
    by simp
  from identical_destination_gets_suffix
    [of "[[''d'', ''a.png''] \<mapsto> File ''X'']" "[[''d'', ''a.png''] \<mapsto> File ''other'']"
       "[''d'', ''a.png'']"]
  have "(\<forall>p. (([[''d'', ''a.png''] \<mapsto> File ''X''] :: tree) p = None)
         = (([[''d'', ''a.png''] \<mapsto> File ''other''] :: tree) p = None)) \<longrightarrow>
        unique_path_if_needed [[''d'', ''a.png''] \<mapsto> File ''X''] [''d'', ''a.png'']
        = unique_path_if_needed [[''d'', ''a.png''] \<mapsto> File ''other''] [''d'', ''a.png'']"
    by blast
  with h show ?thesis by blast
qed

text \<open>
  Claim C3, on the code: one pass over a media tree that holds \<open>a.png\<close> and \<open>%61.png\<close>,
  two files with the same bytes \<open>X\<close> whose names decode to \<open>a.png\<close>, into an empty
  output. The second file is not recognised as the first: it is copied to
  \<open>a__dup1.png\<close>, so the pair has two output paths, and every key of both files ends
  registered at the second path.
\<close>

theorem identical_files_get_two_paths:
  "(case build_media_index_and_copy (\<lambda>b. b) sha [(''a.png'', ''X''), (''%61.png'', ''X'')]
          Map.empty of
      Inl e \<Rightarrow> False
    | Inr (idx, fs) \<Rightarrow>
        fs [''a.png''] = Some (File ''X'')
        \<and> fs [''a__dup1.png''] = Some (File ''X'')
        \<and> idx ''%61.png'' = Some ''a__dup1.png''
        \<and> idx ''a.png'' = Some ''a__dup1.png'')"
  by code_simp

text \<open>
  Claim C1, on the code: the page \<open>p.txt\<close> embeds \<open>a.png\<close>, the media tree holds
  \<open>a.png\<close>, and the output directory is empty. The first run writes the note and copies
  the file. The second run, on the same sources and on the output of the first, copies
  the file again to \<open>a__dup1.png\<close>, registers that path, and rewrites the note to point
  at it: the output after the second run is not the output after the first.
\<close>

theorem second_run_changes_output:
  "(case migrate (\<lambda>b. b) sha (Some ''/srv/wiki'') [(''p.txt'', Some ''see {{a.png}}'')]
          [(''a.png'', ''X'')] empty_out of
      Inl e \<Rightarrow> False
    | Inr out1 \<Rightarrow>
        out_notes out1 [''p.md''] = Some (File ''see ![](../media/a.png)'')
        \<and> out_media out1 [''a.png''] = Some (File ''X'')
        \<and> out_media out1 [''a__dup1.png''] = None
        \<and> (case migrate (\<lambda>b. b) sha (Some ''/srv/wiki'') [(''p.txt'', Some ''see {{a.png}}'')]
                  [(''a.png'', ''X'')] out1 of
              Inl e \<Rightarrow> False
            | Inr out2 \<Rightarrow>
                out_notes out2 [''p.md''] = Some (File ''see ![](../media/a__dup1.png)'')
                \<and> out_media out2 [''a.png''] = Some (File ''X'')
                \<and> out_media out2 [''a__dup1.png''] = Some (File ''X'')))"
  by code_simp

end
